theory Spec2Isabelle
  imports Main
begin

section \<open>Strings and numbers of the host language\<close>

text \<open>
  The program is the TypeScript front end \<^verbatim>\<open>src/main.ts\<close> of a HID control panel.
  A \<^typ>\<open>char\<close> stands for one UTF-16 code unit below \<open>0x100\<close>; strings with code
  units above that are outside the model.  In that range the white space of
  \<^verbatim>\<open>String.prototype.trim\<close>, of the regular expression class \<^verbatim>\<open>\s\<close> and of
  \<^verbatim>\<open>parseInt\<close> is the same set: TAB, LF, VT, FF, CR, SPACE and NBSP.
\<close>

definition is_space :: "char \<Rightarrow> bool" where
  "is_space c =
     (let n = (of_char c :: nat)
      in n = 9 \<or> n = 10 \<or> n = 11 \<or> n = 12 \<or> n = 13 \<or> n = 32 \<or> n = 160)"

text \<open>\<^verbatim>\<open>s.trim()\<close>: white space removed at both ends.\<close>

definition trim :: "string \<Rightarrow> string" where
  "trim s = rev (dropWhile is_space (rev (dropWhile is_space s)))"

text \<open>
  \<^verbatim>\<open>s.split(/\s+/)\<close>: the pieces of \<open>s\<close> between the maximal runs of white space.
  A run at the start or at the end of \<open>s\<close> leaves an empty piece there, and the empty
  string splits into one empty piece, as in the host language.
\<close>

function split_ws :: "string \<Rightarrow> string list" where
  "split_ws s =
     (let tok = takeWhile (\<lambda>c. \<not> is_space c) s;
          rest = dropWhile (\<lambda>c. \<not> is_space c) s
      in if rest = [] then [tok] else tok # split_ws (dropWhile is_space rest))"
  by pat_completeness auto
termination
proof (relation "measure length")
  show "wf (measure length)" by simp
next
  fix s tok rest :: string
  assume r: "rest = dropWhile (\<lambda>c. \<not> is_space c) s" and ne: "rest \<noteq> []"
  from ne obtain c cs where cs: "rest = c # cs" by (cases rest) auto
  with r have "is_space c"
    by (metis hd_dropWhile list.sel(1) ne)
  then have "length (dropWhile is_space rest) \<le> length cs"
    using cs by (simp add: length_dropWhile_le)
  moreover have "length rest \<le> length s"
    using r by (simp add: length_dropWhile_le)
  ultimately show "(dropWhile is_space rest, s) \<in> measure length"
    using cs by simp
qed

declare split_ws.simps [simp del]

text \<open>
  A number of the host language, as far as \<^verbatim>\<open>parseInt\<close> produces one.  A Number is
  an IEEE double: \<^verbatim>\<open>NaN\<close>, an integer that a double holds exactly (\<open>Num\<close>), the negative
  zero, or an infinity.
\<close>

datatype js_number = NaN | Num int | NegZero | PosInfinity | NegInfinity

definition hex_digit_val :: "char \<Rightarrow> nat option" where
  "hex_digit_val c =
     (let n = (of_char c :: nat)
      in if 48 \<le> n \<and> n \<le> 57 then Some (n - 48)
         else if 65 \<le> n \<and> n \<le> 70 then Some (n - 55)
         else if 97 \<le> n \<and> n \<le> 102 then Some (n - 87)
         else None)"

definition is_hex_digit :: "char \<Rightarrow> bool" where
  "is_hex_digit c = (hex_digit_val c \<noteq> None)"

text \<open>The value of a string of hexadecimal digits, most significant digit first.\<close>

definition hex_value :: "string \<Rightarrow> nat" where
  "hex_value z = foldl (\<lambda>acc c. 16 * acc + (case hex_digit_val c of Some d \<Rightarrow> d | None \<Rightarrow> 0)) 0 z"

text \<open>
  The Number for an integer \<open>m \<ge> 0\<close>: \<open>m\<close> itself below \<open>2^53\<close>; above, \<open>m\<close> rounded to
  53 significant bits, to the nearest and to the even one in a tie; \<open>None\<close> when the
  rounded value is beyond the largest double, where the Number is an infinity.
\<close>

function bit_length :: "int \<Rightarrow> nat" where
  "bit_length n = (if n \<le> 0 then 0 else Suc (bit_length (n div 2)))"
  by pat_completeness auto
termination
  by (relation "measure nat") auto

declare bit_length.simps [simp del]

definition to_double :: "int \<Rightarrow> int option" where
  "to_double m =
     (if m < 2 ^ 53 then Some m
      else
        let e = bit_length m - 53;
            q = m div 2 ^ e;
            r = m mod 2 ^ e;
            half = 2 ^ (e - 1);
            q' = (if half < r \<or> (r = half \<and> odd q) then q + 1 else q);
            v = q' * 2 ^ e
        in if v < 2 ^ 1024 then Some v else None)"

text \<open>
  \<^verbatim>\<open>parseInt(h, 16)\<close>, by the steps of the language standard: skip leading white
  space, read an optional sign, skip an optional \<^verbatim>\<open>0x\<close> or \<^verbatim>\<open>0X\<close>, take the longest
  prefix of hexadecimal digits; \<^verbatim>\<open>NaN\<close> when that prefix is empty, else the Number for
  its signed value (the negative zero for a zero after a minus sign).  Whatever follows
  the prefix is ignored.
\<close>

definition strip_sign :: "string \<Rightarrow> int \<times> string" where
  "strip_sign s =
     (case s of
        [] \<Rightarrow> (1, [])
      | c # cs \<Rightarrow>
          if c = CHR ''-'' then (-1, cs)
          else if c = CHR ''+'' then (1, cs)
          else (1, s))"

definition strip_0x :: "string \<Rightarrow> string" where
  "strip_0x s =
     (case s of
        c # d # cs \<Rightarrow>
          if c = CHR ''0'' \<and> (d = CHR ''x'' \<or> d = CHR ''X'') then cs else s
      | _ \<Rightarrow> s)"

definition parseInt16 :: "string \<Rightarrow> js_number" where
  "parseInt16 h =
     (let (sign, s1) = strip_sign (dropWhile is_space h);
          z = takeWhile is_hex_digit (strip_0x s1)
      in if z = [] then NaN
         else
           let m = int (hex_value z)
           in if m = 0 then (if sign < 0 then NegZero else Num 0)
              else case to_double m of
                     None \<Rightarrow> (if sign < 0 then NegInfinity else PosInfinity)
                   | Some v \<Rightarrow> Num (sign * v))"

section \<open>Rendering numbers\<close>

text \<open>
  \<^verbatim>\<open>n.toString(radix)\<close> for an integer \<open>n\<close> and a radix from 2 to 16: the digits,
  lower case, most significant first, after a minus sign when \<open>n\<close> is negative.
\<close>

definition digit_char :: "nat \<Rightarrow> char" where
  "digit_char d = (if d < 10 then char_of (48 + d) else char_of (87 + d))"

function nat_digits :: "nat \<Rightarrow> nat \<Rightarrow> string" where
  "nat_digits radix n =
     (if n < radix \<or> radix < 2 then [digit_char n]
      else nat_digits radix (n div radix) @ [digit_char (n mod radix)])"
  by pat_completeness auto
termination
  by (relation "measure snd") auto

declare nat_digits.simps [simp del]

definition toString :: "nat \<Rightarrow> int \<Rightarrow> string" where
  "toString radix n =
     (if n < 0 then CHR ''-'' # nat_digits radix (nat (- n)) else nat_digits radix (nat n))"

text \<open>
  \<^verbatim>\<open>toUpperCase\<close> on ASCII letters; the program applies it to the output of
  \<^verbatim>\<open>toString(16)\<close> only.
\<close>

definition toUpperCase :: "string \<Rightarrow> string" where
  "toUpperCase s =
     map (\<lambda>c. let n = (of_char c :: nat) in if 97 \<le> n \<and> n \<le> 122 then char_of (n - 32) else c) s"

definition padStart :: "nat \<Rightarrow> char \<Rightarrow> string \<Rightarrow> string" where
  "padStart n c s = replicate (n - length s) c @ s"

fun join :: "string \<Rightarrow> string list \<Rightarrow> string" where
  "join sep [] = []"
| "join sep [x] = x"
| "join sep (x # y # ys) = x @ sep @ join sep (y # ys)"

text \<open>
  The expression that the push handler and the send handler both use on a sequence of
  numbers: \<^verbatim>\<open>bs.map(b => b.toString(16).toUpperCase().padStart(2, '0')).join(' ')\<close>.
\<close>

definition hex_pair :: "int \<Rightarrow> string" where
  "hex_pair b = padStart 2 (CHR ''0'') (toUpperCase (toString 16 b))"

definition hex_line :: "int list \<Rightarrow> string" where
  "hex_line bs = join '' '' (map hex_pair bs)"

section \<open>Session state\<close>

record HidDevice =
  path :: string
  vendor_id :: string
  product_id :: string
  product_string :: "string option"
  manufacturer_string :: "string option"
  usage_page :: int
  interface_number :: int

datatype log_type = Info | Incoming | Outgoing | Error

text \<open>
  The commands of the native backend that the front end invokes.  The path given to
  \<^verbatim>\<open>send_hid_command\<close> is read from \<^verbatim>\<open>selectedDevicePath\<close> after an \<^verbatim>\<open>await\<close>,
  so it is a string or \<^verbatim>\<open>null\<close> (\<open>None\<close>).
\<close>

datatype command =
    Scan_hid_devices
  | Start_listening string
  | Send_hid_command "string option" "js_number list"

text \<open>
  What a handler does that is visible outside the session variables, in the order in which
  it happens: an entry written to the log, a command sent to the backend.
\<close>

datatype event = Logged log_type string | Invoked command

text \<open>
  The module-level variables \<^verbatim>\<open>scannedDevices\<close>, \<^verbatim>\<open>selectedDevicePath\<close>,
  \<^verbatim>\<open>unlistenHid\<close> and \<^verbatim>\<open>activeListeners\<close>, and the parts of the page the handlers
  read back: the children of \<^verbatim>\<open>#log\<close> (each a category and a message; the time
  stamp that \<^verbatim>\<open>addLog\<close> puts in front is read from the clock and is left out) and the
  text of \<^verbatim>\<open>#selectedTag\<close>.  The registry \<^verbatim>\<open>activeListeners\<close> is declared a set of
  strings, but what the send handler adds to it is \<^verbatim>\<open>selectedDevicePath\<close> as read
  after an \<^verbatim>\<open>await\<close>, which can be \<^verbatim>\<open>null\<close>: its members are strings or \<open>None\<close>.

  \<open>unlistenHid\<close> is whether an unsubscribe function is stored, \<open>hid_subscriptions\<close> the
  number of handlers registered on the \<^verbatim>\<open>hid-data\<close> channel.  \<open>history\<close> is a ghost
  field: every log entry and every backend command since the start, oldest first; unlike
  \<open>log\<close>, the operator cannot clear it.
\<close>

record session =
  scannedDevices :: "HidDevice list"
  selectedDevicePath :: "string option"
  unlistenHid :: bool
  activeListeners :: "string option set"
  log :: "(log_type \<times> string) list"
  selectedTag :: string
  hid_subscriptions :: nat
  history :: "event list"

definition initial :: session where
  "initial =
     \<lparr> scannedDevices = [], selectedDevicePath = None, unlistenHid = False,
       activeListeners = {}, log = [], selectedTag = [],
       hid_subscriptions = 0, history = [] \<rparr>"

text \<open>
  What the backend answers to a command: it rejects the command with a message (\<open>Inl\<close>)
  or returns its result (\<open>Inr\<close>).  The numbers that come from the backend, in a response
  and in a pushed frame, are integers.
\<close>

record backend =
  start_listening :: "string \<Rightarrow> string + unit"
  send_hid_command :: "string option \<Rightarrow> js_number list \<Rightarrow> string + int list"

section \<open>The handlers\<close>

text \<open>
  The scan handler and the send handler are asynchronous: at each \<^verbatim>\<open>await\<close> of a
  backend command the handler is suspended, and until the backend answers other handlers
  run (a click, another send, a pushed frame).  Such a handler is modelled by its parts
  between the awaits, each a step of its own; a part reads the module variables as they
  are when it runs.  The handlers are installed by \<^verbatim>\<open>startApp\<close> after it has written
  the page, so \<^verbatim>\<open>#log\<close> exists whenever \<^verbatim>\<open>addLog\<close> runs.
\<close>

definition addLog :: "string \<Rightarrow> log_type \<Rightarrow> session \<Rightarrow> session" where
  "addLog message type s =
     s\<lparr> log := log s @ [(type, message)], history := history s @ [Logged type message] \<rparr>"

definition invoke :: "command \<Rightarrow> session \<Rightarrow> session" where
  "invoke c s = s\<lparr> history := history s @ [Invoked c] \<rparr>"

definition initEventListener :: "session \<Rightarrow> session" where
  "initEventListener s =
     (let s1 = (if unlistenHid s then s\<lparr> hid_subscriptions := hid_subscriptions s - 1 \<rparr> else s)
      in s1\<lparr> hid_subscriptions := hid_subscriptions s1 + 1, unlistenHid := True \<rparr>)"

text \<open>The callback registered on \<^verbatim>\<open>hid-data\<close>, run once for a pushed frame.\<close>

definition hid_data_handler :: "int list \<Rightarrow> session \<Rightarrow> session" where
  "hid_data_handler payload s = addLog (''[ASYNC IN] '' @ hex_line payload) Incoming s"

text \<open>A frame pushed by the backend reaches every registered handler.\<close>

definition hid_data_event :: "int list \<Rightarrow> session \<Rightarrow> session" where
  "hid_data_event payload s = ((hid_data_handler payload) ^^ (hid_subscriptions s)) s"

definition clearLog_onclick :: "session \<Rightarrow> session" where
  "clearLog_onclick s = s\<lparr> log := [] \<rparr>"

text \<open>
  \<^verbatim>\<open>renderDeviceList\<close> rewrites the markup of \<^verbatim>\<open>#deviceList\<close> from
  \<^verbatim>\<open>scannedDevices\<close> and \<^verbatim>\<open>selectedDevicePath\<close> and changes nothing else; the markup
  is not part of the state, and the calls of \<^verbatim>\<open>renderDeviceList\<close> (after a successful
  scan, at the end of a click) leave the state as it is.  It writes each path into the
  markup as it is, without escaping, and the click handler reads \<^verbatim>\<open>dataset.path\<close>
  back from the parsed markup: for a path with a character reference or a double quote
  the two differ (the path \<^verbatim>\<open>a&amp;b\<close> is read back as \<^verbatim>\<open>a&b\<close>).  So the click
  handler takes the \<^verbatim>\<open>data-path\<close> of the clicked item as its argument \<open>p\<close>, whatever
  string that is.  An empty \<^verbatim>\<open>data-path\<close> is falsy, so \<^verbatim>\<open>dataset.path || null\<close> is
  \<^verbatim>\<open>null\<close> for it.  The descriptors are well typed, so the rendering raises nothing.
\<close>

definition device_item_click :: "string \<Rightarrow> session \<Rightarrow> session" where
  "device_item_click p s =
     (let s1 = s\<lparr> selectedDevicePath := (if p = [] then None else Some p) \<rparr>
      in case find (\<lambda>d. Some (path d) = selectedDevicePath s1) (scannedDevices s1) of
           Some device \<Rightarrow>
             addLog (''Device selected. Interface: '' @ toString 10 (interface_number device)) Info
               (s1\<lparr> selectedTag :=
                      ''Active: ''
                      @ (case product_string device of Some n \<Rightarrow> n | None \<Rightarrow> ''null'')
                      @ '' (IF:'' @ toString 10 (interface_number device) @ '')'' \<rparr>)
         | None \<Rightarrow> s1)"

text \<open>
  The scan button.  \<open>scan_begin\<close> runs up to the \<^verbatim>\<open>await\<close> of \<^verbatim>\<open>scan_hid_devices\<close>;
  \<open>scan_end\<close> runs when the backend has answered with \<open>result\<close>.  \<open>scanBtn_onclick\<close> is a
  scan during which no other handler runs.
\<close>

definition scan_begin :: "session \<Rightarrow> session" where
  "scan_begin s = invoke Scan_hid_devices (addLog ''Scanning HID bus...'' Info s)"

definition scan_end :: "string + HidDevice list \<Rightarrow> session \<Rightarrow> session" where
  "scan_end result s =
     (case result of
        Inr devices \<Rightarrow>
          addLog (''Found '' @ toString 10 (int (length devices)) @ '' devices.'') Info
            (s\<lparr> scannedDevices := devices \<rparr>)
      | Inl e \<Rightarrow> addLog (''Scan Error: '' @ e) Error s)"

definition scanBtn_onclick :: "string + HidDevice list \<Rightarrow> session \<Rightarrow> session" where
  "scanBtn_onclick result s = scan_end result (scan_begin s)"

text \<open>
  The send button.  \<open>cmdArray\<close> is the array built from the trimmed text, a constant of
  the handler.  A suspended send handler is a \<open>pending\<close>: the command it waits for, with
  the path and the array given to the backend; the array is what the handler still holds
  when it goes on after the listener start.
\<close>

definition cmdArray :: "string \<Rightarrow> js_number list" where
  "cmdArray hexCmd = map parseInt16 (split_ws hexCmd)"

datatype pending =
    Awaiting_start string "js_number list"
  | Awaiting_send "string option" "js_number list"

text \<open>
  The \<^verbatim>\<open>catch\<close> block: it deletes from the registry what \<^verbatim>\<open>selectedDevicePath\<close>
  holds when the rejection arrives.
\<close>

definition send_catch :: "string \<Rightarrow> session \<Rightarrow> session" where
  "send_catch e s =
     (let s1 = addLog (''Communication Failure: '' @ e) Error s
      in s1\<lparr> activeListeners := activeListeners s1 - {selectedDevicePath s1} \<rparr>)"

text \<open>
  The call of \<^verbatim>\<open>send_hid_command\<close>, up to its \<^verbatim>\<open>await\<close>: the path is
  \<^verbatim>\<open>selectedDevicePath\<close> as it is now.
\<close>

definition send_command :: "js_number list \<Rightarrow> session \<Rightarrow> session \<times> pending option" where
  "send_command arr s =
     (invoke (Send_hid_command (selectedDevicePath s) arr) s,
      Some (Awaiting_send (selectedDevicePath s) arr))"

text \<open>
  \<open>send_begin\<close> runs from the press of the button to the first \<^verbatim>\<open>await\<close> or to the
  \<^verbatim>\<open>return\<close>; \<open>text\<close> is the content of the input field.  No \<^verbatim>\<open>await\<close> lies between
  the test of \<^verbatim>\<open>selectedDevicePath\<close> and the call of \<^verbatim>\<open>start_listening\<close>, so the
  registry is asked about, and the listener started for, the path \<open>p\<close> of that test.
\<close>

definition send_begin :: "string \<Rightarrow> session \<Rightarrow> session \<times> pending option" where
  "send_begin text s =
     (case selectedDevicePath s of
        None \<Rightarrow> (addLog ''Error: No device selected.'' Error s, None)
      | Some p \<Rightarrow>
          if p = [] then (addLog ''Error: No device selected.'' Error s, None)
          else
            let hexCmd = trim text
            in if hexCmd = [] then (s, None)
               else
                 let arr = cmdArray hexCmd;
                     s1 = addLog (''[OUT] '' @ hexCmd) Outgoing s
                 in if Some p \<notin> activeListeners s1
                    then (invoke (Start_listening p)
                            (addLog ''[SYS] Starting background worker for current OS...'' Info s1),
                          Some (Awaiting_start p arr))
                    else send_command arr s1)"

text \<open>
  \<open>send_after_start\<close> runs when the backend has answered \<^verbatim>\<open>start_listening\<close>: on a
  rejection the \<^verbatim>\<open>catch\<close> block; otherwise \<^verbatim>\<open>selectedDevicePath\<close>, as it is now, is
  added to the registry and the command is sent.
\<close>

definition send_after_start ::
  "string + unit \<Rightarrow> js_number list \<Rightarrow> session \<Rightarrow> session \<times> pending option" where
  "send_after_start answer arr s =
     (case answer of
        Inl e \<Rightarrow> (send_catch e s, None)
      | Inr u \<Rightarrow>
          send_command arr
            (s\<lparr> activeListeners := insert (selectedDevicePath s) (activeListeners s) \<rparr>))"

text \<open>\<open>send_after_send\<close> runs when the backend has answered \<^verbatim>\<open>send_hid_command\<close>.\<close>

definition send_after_send :: "string + int list \<Rightarrow> session \<Rightarrow> session" where
  "send_after_send answer s =
     (case answer of
        Inl e \<Rightarrow> send_catch e s
      | Inr response \<Rightarrow>
          if response \<noteq> [] then addLog (''[RESULT] '' @ hex_line response) Info s else s)"

text \<open>A suspended send handler goes on with the answer of the backend \<open>b\<close>.\<close>

fun resume :: "backend \<Rightarrow> pending \<Rightarrow> session \<Rightarrow> session \<times> pending option" where
  "resume b (Awaiting_start p arr) s = send_after_start (start_listening b p) arr s"
| "resume b (Awaiting_send q arr) s = (send_after_send (send_hid_command b q arr) s, None)"

text \<open>
  \<open>sendBtn_onclick\<close> is a send during which no other handler runs: the handler is
  resumed, with the answers of \<open>b\<close>, at each of its awaits (there are at most two) in the
  state in which it was suspended.
\<close>

definition sendBtn_onclick :: "backend \<Rightarrow> string \<Rightarrow> session \<Rightarrow> session" where
  "sendBtn_onclick b text s =
     (case send_begin text s of
        (s1, None) \<Rightarrow> s1
      | (s1, Some k1) \<Rightarrow>
          (case resume b k1 s1 of
             (s2, None) \<Rightarrow> s2
           | (s2, Some k2) \<Rightarrow> fst (resume b k2 s2)))"

text \<open>
  \<^verbatim>\<open>startApp\<close>, run once when the page has loaded: it writes the page (an empty log,
  the tag \<^verbatim>\<open>Wait for Device...\<close>) and subscribes to the push channel.
\<close>

definition startApp :: "session \<Rightarrow> session" where
  "startApp s = initEventListener (s\<lparr> log := [], selectedTag := ''Wait for Device...'' \<rparr>)"

section \<open>Observations on a run\<close>

text \<open>The backend commands among a sequence of events, in order.\<close>

fun calls :: "event list \<Rightarrow> command list" where
  "calls [] = []"
| "calls (Logged t m # es) = calls es"
| "calls (Invoked c # es) = c # calls es"

text \<open>The events between an earlier state \<open>s\<close> and a later state \<open>s'\<close>.\<close>

definition new_events :: "session \<Rightarrow> session \<Rightarrow> event list" where
  "new_events s s' = drop (length (history s)) (history s')"



text \<open>
  The states of a session: \<^verbatim>\<open>startApp\<close> on the fresh page, then the parts of the
  handlers in any order.  Every state of a run of the program is reachable in this sense.
  The relation does not ask that a part that goes on after an \<^verbatim>\<open>await\<close> belongs to a
  handler suspended earlier, nor that a clicked item was rendered, so it may hold of more
  states than the program can be in; what is proved of all reachable states holds of all
  states of the program.
\<close>

inductive reachable :: "session \<Rightarrow> bool" where
  start: "reachable (startApp initial)"
| scan_pressed: "reachable s \<Longrightarrow> reachable (scan_begin s)"
| scan_answered: "reachable s \<Longrightarrow> reachable (scan_end result s)"
| select: "reachable s \<Longrightarrow> reachable (device_item_click p s)"
| send_pressed: "reachable s \<Longrightarrow> reachable (fst (send_begin text s))"
| start_answered: "reachable s \<Longrightarrow> reachable (fst (send_after_start answer arr s))"
| send_answered: "reachable s \<Longrightarrow> reachable (send_after_send response s)"
| clear: "reachable s \<Longrightarrow> reachable (clearLog_onclick s)"
| push: "reachable s \<Longrightarrow> reachable (hid_data_event payload s)"

text \<open>
  Tokens \<open>t\<^sub>1 \<dots> t\<^sub>n\<close> with the separator \<open>sep\<^sub>i\<close> written between \<open>t\<^sub>i\<close> and the next token.
\<close>

fun weave :: "string list \<Rightarrow> string list \<Rightarrow> string" where
  "weave [] seps = []"
| "weave [t] seps = t"
| "weave (t # u # ts) [] = t"
| "weave (t # u # ts) (sep # seps) = t @ sep @ weave (u # ts) seps"

definition is_token :: "string \<Rightarrow> bool" where
  "is_token t = (t \<noteq> [] \<and> list_all (\<lambda>c. \<not> is_space c) t)"

definition is_separator :: "string \<Rightarrow> bool" where
  "is_separator sep = (sep \<noteq> [] \<and> list_all is_space sep)"

text \<open>A token of hexadecimal digits whose value a double holds exactly.\<close>

definition is_exact_hex :: "string \<Rightarrow> bool" where
  "is_exact_hex t = (list_all is_hex_digit t \<and> int (hex_value t) < 2 ^ 53)"

text \<open>The upper-case hexadecimal digit of a value below sixteen.\<close>

definition upper_hex_digit :: "nat \<Rightarrow> char" where
  "upper_hex_digit d = ''0123456789ABCDEF'' ! d"

definition is_byte :: "int \<Rightarrow> bool" where
  "is_byte b = (0 \<le> b \<and> b < 256)"

subsection \<open>Concrete sessions\<close>

definition dev1 :: HidDevice where
  "dev1 =
     \<lparr> path = ''dev-1'', vendor_id = ''0x2dbf'', product_id = ''0x5038'',
       product_string = Some ''Mouse'', manufacturer_string = None,
       usage_page = 65280, interface_number = 1 \<rparr>"


text \<open>A device whose path holds a character reference.\<close>

definition dev_amp :: HidDevice where
  "dev_amp =
     \<lparr> path = ''a&amp;b'', vendor_id = ''0x2dbf'', product_id = ''0x5038'',
       product_string = None, manufacturer_string = None,
       usage_page = 1, interface_number = 0 \<rparr>"

text \<open>A backend that accepts every command and answers a send with the byte \<open>0xAA\<close>.\<close>

definition accepting :: backend where
  "accepting = \<lparr> start_listening = (\<lambda>p. Inr ()), send_hid_command = (\<lambda>p arr. Inr [170]) \<rparr>"

text \<open>A backend that starts listeners and rejects every send.\<close>

definition send_rejecting :: backend where
  "send_rejecting =
     \<lparr> start_listening = (\<lambda>p. Inr ()), send_hid_command = (\<lambda>p arr. Inl ''write failed'') \<rparr>"


text \<open>The session after start, a scan that finds \<open>dev1\<close>, and a click on it.\<close>

definition scanned :: session where
  "scanned = scanBtn_onclick (Inr [dev1]) (startApp initial)"

definition selected :: session where
  "selected = device_item_click ''dev-1'' scanned"

text \<open>The session after start and a scan that finds \<open>dev_amp\<close>.\<close>

definition scanned_amp :: session where
  "scanned_amp = scanBtn_onclick (Inr [dev_amp]) (startApp initial)"






section \<open>Basic facts\<close>


lemma new_events_append: "history s' = history s @ evs \<Longrightarrow> new_events s s' = evs"
  by (simp add: new_events_def)

lemma send_unselected:
  "selectedDevicePath s = None \<or> selectedDevicePath s = Some [] \<Longrightarrow>
   sendBtn_onclick b text s = addLog ''Error: No device selected.'' Error s"
  by (auto simp: sendBtn_onclick_def send_begin_def)

lemma send_blank:
  "selectedDevicePath s = Some p \<Longrightarrow> p \<noteq> [] \<Longrightarrow> trim text = [] \<Longrightarrow>
   sendBtn_onclick b text s = s"
  by (simp add: sendBtn_onclick_def send_begin_def)

lemmas send_defs =
  sendBtn_onclick_def send_begin_def send_command_def send_after_start_def
  send_after_send_def send_catch_def addLog_def invoke_def Let_def

lemma send_calls:
  assumes "selectedDevicePath s = Some p" "p \<noteq> []" "trim text \<noteq> []"
  shows "calls (new_events s (sendBtn_onclick b text s)) =
           (if Some p \<in> activeListeners s then [] else [Start_listening p]) @
           (if Some p \<notin> activeListeners s \<and> isl (start_listening b p) then []
            else [Send_hid_command (Some p) (cmdArray (trim text))])"
  using assms by (auto simp: send_defs new_events_def split: sum.splits)







lemma selected_facts:
  "selectedDevicePath selected = Some ''dev-1''"
  "activeListeners selected = {}"
  "scannedDevices selected = [dev1]"
  by (simp_all add: selected_def scanned_def device_item_click_def scanBtn_onclick_def
      startApp_def initEventListener_def initial_def scan_begin_def scan_end_def addLog_def
      invoke_def dev1_def Let_def)

lemma trim_01_02: "trim ''01 02'' = ''01 02''"
  by (simp add: trim_def is_space_def)

section \<open>The listener registry\<close>

lemma click_selected:
  "selectedDevicePath (device_item_click p s) = (if p = [] then None else Some p)"
  by (simp add: device_item_click_def addLog_def Let_def split: option.splits)

lemma click_catalog: "scannedDevices (device_item_click p s) = scannedDevices s"
  by (simp add: device_item_click_def addLog_def Let_def split: option.splits)

lemma click_listeners: "activeListeners (device_item_click p s) = activeListeners s"
  by (simp add: device_item_click_def addLog_def Let_def split: option.splits)

lemma reachable_scan: "reachable s \<Longrightarrow> reachable (scanBtn_onclick result s)"
  unfolding scanBtn_onclick_def by (intro reachable.scan_answered reachable.scan_pressed)













section \<open>Facts about trimming, scans, clicks and reachable states\<close>

lemma trim_Nil_iff: "trim s = [] \<longleftrightarrow> list_all is_space s"
proof
  assume "trim s = []"
  then have "dropWhile is_space (rev (dropWhile is_space s)) = []"
    by (simp add: trim_def)
  then have all: "\<forall>c \<in> set (dropWhile is_space s). is_space c"
    by (simp add: dropWhile_eq_Nil_conv)
  have "dropWhile is_space s = []"
  proof (rule ccontr)
    assume ne: "dropWhile is_space s \<noteq> []"
    then have "\<not> is_space (hd (dropWhile is_space s))" by (rule hd_dropWhile)
    moreover have "hd (dropWhile is_space s) \<in> set (dropWhile is_space s)"
      using ne by simp
    ultimately show False using all by blast
  qed
  then show "list_all is_space s"
    by (simp add: dropWhile_eq_Nil_conv list_all_iff)
next
  assume "list_all is_space s"
  then show "trim s = []"
    by (auto simp: trim_def list_all_iff dest: set_dropWhileD)
qed

lemma scan_selected: "selectedDevicePath (scanBtn_onclick result s) = selectedDevicePath s"
  by (simp add: scanBtn_onclick_def scan_begin_def scan_end_def addLog_def invoke_def Let_def split: sum.splits)

lemma scan_catalog: "scannedDevices (scanBtn_onclick (Inr ds) s) = ds"
  by (simp add: scanBtn_onclick_def scan_begin_def scan_end_def addLog_def invoke_def Let_def)

lemma scan_begin_selected: "selectedDevicePath (scan_begin s) = selectedDevicePath s"
  by (simp add: scan_begin_def addLog_def invoke_def)

lemma scan_end_selected: "selectedDevicePath (scan_end result s) = selectedDevicePath s"
  by (simp add: scan_end_def addLog_def split: sum.splits)

lemma reachable_subscribed: "reachable s \<Longrightarrow> hid_subscriptions s = 1 \<and> unlistenHid s"
proof (induction rule: reachable.induct)
  case start
  show ?case by (simp add: startApp_def initEventListener_def initial_def)
next
  case (scan_pressed s)
  then show ?case by (simp add: scan_begin_def addLog_def invoke_def)
next
  case (scan_answered s result)
  then show ?case by (simp add: scan_end_def addLog_def split: sum.splits)
next
  case (select s p)
  then show ?case
    by (simp add: device_item_click_def addLog_def Let_def split: option.splits)
next
  case (send_pressed s t)
  then show ?case
    by (simp add: send_begin_def send_command_def addLog_def invoke_def Let_def
        split: option.splits)
next
  case (start_answered s answer arr)
  then show ?case
    by (simp add: send_after_start_def send_command_def send_catch_def addLog_def invoke_def
        Let_def split: sum.splits)
next
  case (send_answered s response)
  then show ?case
    by (simp add: send_after_send_def send_catch_def addLog_def Let_def split: sum.splits)
next
  case (clear s)
  then show ?case by (simp add: clearLog_onclick_def)
next
  case (push s payload)
  then show ?case by (simp add: hid_data_event_def hid_data_handler_def addLog_def)
qed

lemma find_absent: "p \<notin> path ` set ds \<Longrightarrow> find (\<lambda>d. Some (path d) = Some p) ds = None"
  by (induction ds) auto

lemma click_absent:
  assumes "p \<notin> path ` set (scannedDevices s)"
  shows "log (device_item_click p s) = log s \<and> selectedTag (device_item_click p s) = selectedTag s
    \<and> history (device_item_click p s) = history s"
proof (cases "p = []")
  case True
  have "find (\<lambda>d. Some (path d) = None) ds = None" for ds :: "HidDevice list"
    by (induction ds) auto
  with True show ?thesis
    by (simp add: device_item_click_def Let_def)
next
  case False
  with find_absent [OF assms] show ?thesis
    by (simp add: device_item_click_def Let_def)
qed

section \<open>Rejected and unchecked command text\<close>

text \<open>
  The claim C2 as it is written fails on the program.  With the device \<open>dev-1\<close> selected
  and a backend that accepts every command, the text \<^verbatim>\<open>ZZ\<close> is dispatched: the
  listener is started and \<^verbatim>\<open>send_hid_command\<close> is invoked with the array \<open>[NaN]\<close>;
  the entries logged are the outgoing one, the listener start and the result, none of
  them an error.  A text of three blanks is dropped without any log entry.
\<close>

lemma trim_ZZ: "trim ''ZZ'' = ''ZZ''"
  by (simp add: trim_def is_space_def)

lemma cmdArray_ZZ: "cmdArray ''ZZ'' = [NaN]"
  by (simp add: cmdArray_def split_ws.simps [of "''ZZ''"] is_space_def parseInt16_def strip_sign_def
      strip_0x_def is_hex_digit_def hex_digit_val_def)

lemma blank_spaces: "list_all is_space ''   ''"
  by (simp add: is_space_def)

theorem C2_invalid_token_counterexample:
  "selectedDevicePath selected = Some ''dev-1''
   \<and> calls (new_events selected (sendBtn_onclick accepting ''ZZ'' selected)) =
       [Start_listening ''dev-1'', Send_hid_command (Some ''dev-1'') [NaN]]
   \<and> log (sendBtn_onclick accepting ''ZZ'' selected) =
       log selected @ [(Outgoing, ''[OUT] ZZ''),
                       (Info, ''[SYS] Starting background worker for current OS...''),
                       (Info, ''[RESULT] AA'')]
   \<and> log (sendBtn_onclick accepting ''   '' selected) = log selected"
proof -
  have sel: "selectedDevicePath selected = Some ''dev-1''" and ne: "''dev-1'' \<noteq> []"
    by (simp_all add: selected_facts)
  have zz: "trim ''ZZ'' \<noteq> []" by (simp add: trim_ZZ)
  have c: "calls (new_events selected (sendBtn_onclick accepting ''ZZ'' selected)) =
       [Start_listening ''dev-1'', Send_hid_command (Some ''dev-1'') [NaN]]"
    using send_calls [OF sel ne zz, of accepting]
    by (simp add: selected_facts accepting_def trim_ZZ cmdArray_ZZ)
  have "hex_line [170] = ''AA''" by code_simp
  then have l: "log (sendBtn_onclick accepting ''ZZ'' selected) =
       log selected @ [(Outgoing, ''[OUT] ZZ''),
                       (Info, ''[SYS] Starting background worker for current OS...''),
                       (Info, ''[RESULT] AA'')]"
    by (simp add: send_defs selected_facts accepting_def trim_ZZ)
  have "trim ''   '' = []" using blank_spaces by (simp only: trim_Nil_iff)
  then have b: "sendBtn_onclick accepting ''   '' selected = selected"
    using sel ne by (simp add: send_blank)
  from sel c l b show ?thesis by simp
qed

text \<open>
  Claim C2, amended.  While a device is selected: a command text that is empty or consists
  of white space only makes the send handler return at once, the session unchanged (no
  backend command, no log entry).  Any other text is dispatched whatever its tokens are:
  the listener is started where \<open>P\<close> is not registered, and unless that start is rejected
  \<^verbatim>\<open>send_hid_command\<close> is invoked with the array of \<^verbatim>\<open>parseInt(token, 16)\<close> over the
  tokens of the trimmed text, \<open>NaN\<close> included.
\<close>

theorem C2_blank_rejected_tokens_unchecked:
  assumes sel: "selectedDevicePath s = Some P" and ne: "P \<noteq> []"
  shows "(list_all is_space text \<longrightarrow> sendBtn_onclick b text s = s)
     \<and> (\<not> list_all is_space text \<longrightarrow>
          calls (new_events s (sendBtn_onclick b text s)) =
            (if Some P \<in> activeListeners s then [] else [Start_listening P]) @
            (if Some P \<notin> activeListeners s \<and> isl (start_listening b P) then []
             else [Send_hid_command (Some P) (map parseInt16 (split_ws (trim text)))]))"
proof (intro conjI impI)
  assume "list_all is_space text"
  then have "trim text = []" by (simp only: trim_Nil_iff)
  with sel ne show "sendBtn_onclick b text s = s" by (rule send_blank)
next
  assume "\<not> list_all is_space text"
  then have "trim text \<noteq> []" by (simp add: trim_Nil_iff)
  from send_calls [OF sel ne this, of b]
  show "calls (new_events s (sendBtn_onclick b text s)) =
            (if Some P \<in> activeListeners s then [] else [Start_listening P]) @
            (if Some P \<notin> activeListeners s \<and> isl (start_listening b P) then []
             else [Send_hid_command (Some P) (map parseInt16 (split_ws (trim text)))])"
    by (simp only: cmdArray_def)
qed

theorem C2_blank_rejected_tokens_unchecked_witness:
  "sendBtn_onclick accepting ''   '' selected = selected
   \<and> calls (new_events selected (sendBtn_onclick accepting ''ZZ'' selected)) =
       [Start_listening ''dev-1'', Send_hid_command (Some ''dev-1'') (map parseInt16 (split_ws ''ZZ''))]"
proof -
  have sel: "selectedDevicePath selected = Some ''dev-1''" and ne: "''dev-1'' \<noteq> []"
    by (simp_all add: selected_facts)
  have zz: "\<not> list_all is_space ''ZZ''" by (simp add: is_space_def)
  show ?thesis
    using C2_blank_rejected_tokens_unchecked [OF sel ne, of "''   ''" accepting]
      C2_blank_rejected_tokens_unchecked [OF sel ne, of "''ZZ''" accepting] blank_spaces zz
    by (simp add: selected_facts accepting_def trim_ZZ)
qed

section \<open>The catalog and the selection\<close>

lemma scanned_facts:
  "scannedDevices scanned = [dev1]"
  "selectedDevicePath scanned = None"
  by (simp_all add: scanned_def scanBtn_onclick_def startApp_def initEventListener_def
      initial_def scan_begin_def scan_end_def addLog_def invoke_def dev1_def Let_def)

lemma scanned_amp_facts:
  "scannedDevices scanned_amp = [dev_amp]"
  "selectedDevicePath scanned_amp = None"
  by (simp_all add: scanned_amp_def scanBtn_onclick_def startApp_def initEventListener_def
      initial_def scan_begin_def scan_end_def addLog_def invoke_def Let_def)

lemma reachable_click_amp: "reachable (device_item_click ''a&b'' scanned_amp)"
  unfolding scanned_amp_def by (intro reachable.select reachable_scan reachable.start)

lemma reachable_scanned: "reachable scanned"
  unfolding scanned_def by (intro reachable_scan reachable.start)

lemma reachable_selected: "reachable selected"
  unfolding selected_def by (intro reachable.select reachable_scanned)

text \<open>
  The claim C3 as it is written fails on the program: the scan handler never writes
  \<open>selectedDevicePath\<close>.  After \<open>dev-1\<close> has been scanned and selected, a rescan that
  finds no device leaves the catalog empty and \<open>dev-1\<close> selected.
\<close>

theorem C3_stale_selection_counterexample:
  "reachable (scanBtn_onclick (Inr []) selected)
   \<and> selectedDevicePath selected = Some ''dev-1''
   \<and> scannedDevices (scanBtn_onclick (Inr []) selected) = []
   \<and> selectedDevicePath (scanBtn_onclick (Inr []) selected) = Some ''dev-1''"
  by (simp add: reachable_scan [OF reachable_selected] scan_selected scan_catalog selected_facts)

text \<open>
  Claim C3, amended.  A scan, whatever its result, leaves the selection as it was:
  neither the part before the backend call nor the part after it writes
  \<open>selectedDevicePath\<close>.  So after a rescan whose result does not contain the selected
  path, that path is still selected, and no descriptor of the catalog has it.
\<close>

theorem C3_scan_keeps_selection:
  "selectedDevicePath (scanBtn_onclick result s) = selectedDevicePath s
   \<and> selectedDevicePath (scan_begin s) = selectedDevicePath s
   \<and> selectedDevicePath (scan_end result s) = selectedDevicePath s
   \<and> (selectedDevicePath s = Some p \<longrightarrow> p \<notin> path ` set ds \<longrightarrow>
        selectedDevicePath (scanBtn_onclick (Inr ds) s) = Some p
        \<and> p \<notin> path ` set (scannedDevices (scanBtn_onclick (Inr ds) s)))"
  by (simp add: scan_selected scan_begin_selected scan_end_selected scan_catalog)

theorem C3_scan_keeps_selection_witness:
  "selectedDevicePath (scanBtn_onclick (Inr []) selected) = Some ''dev-1''
   \<and> ''dev-1'' \<notin> path ` set (scannedDevices (scanBtn_onclick (Inr []) selected))
   \<and> selectedDevicePath (scanBtn_onclick (Inl ''no bus'') selected) = Some ''dev-1''"
  using C3_scan_keeps_selection [of "Inr []" selected "''dev-1''" "[]"]
    C3_scan_keeps_selection [of "Inl ''no bus''" selected "''dev-1''" "[]"]
  by (simp add: selected_facts)

text \<open>
  Claim C4.  After a successful scan the catalog is the sequence of descriptors that this
  scan returned, whatever the state before it, in particular after an earlier successful
  scan.
\<close>

theorem C4_scan_replaces_catalog:
  "scannedDevices (scanBtn_onclick (Inr S2) s) = S2
   \<and> scannedDevices (scanBtn_onclick (Inr S2) (scanBtn_onclick (Inr S1) s)) = S2"
  by (simp add: scanBtn_onclick_def scan_begin_def scan_end_def addLog_def invoke_def Let_def)

theorem C4_scan_replaces_catalog_witness:
  "scannedDevices (scanBtn_onclick (Inr []) (scanBtn_onclick (Inr [dev1]) (startApp initial))) = []
   \<and> scannedDevices (scanBtn_onclick (Inr [dev1]) (scanBtn_onclick (Inr []) (startApp initial))) = [dev1]"
  using C4_scan_replaces_catalog [of "[]" "startApp initial" "[dev1]"]
    C4_scan_replaces_catalog [of "[dev1]" "startApp initial" "[]"]
  by simp

text \<open>
  Claim C5.  A scan whose backend call is rejected with \<open>e\<close> changes the log only (and the
  ghost history): after the entry that announces the scan it appends one error entry
  \<^verbatim>\<open>Scan Error: e\<close>.  The catalog, the selection and the listener registry are as
  before, and a later successful scan installs its result.
\<close>

theorem C5_scan_failure_keeps_catalog:
  "scanBtn_onclick (Inl e) s =
     s\<lparr> log := log s @ [(Info, ''Scanning HID bus...''), (Error, ''Scan Error: '' @ e)],
        history := history s @ [Logged Info ''Scanning HID bus...'', Invoked Scan_hid_devices,
                                Logged Error (''Scan Error: '' @ e)] \<rparr>
   \<and> scannedDevices (scanBtn_onclick (Inl e) s) = scannedDevices s
   \<and> selectedDevicePath (scanBtn_onclick (Inl e) s) = selectedDevicePath s
   \<and> activeListeners (scanBtn_onclick (Inl e) s) = activeListeners s
   \<and> scannedDevices (scanBtn_onclick (Inr ds) (scanBtn_onclick (Inl e) s)) = ds"
  by (simp add: scanBtn_onclick_def scan_begin_def scan_end_def addLog_def invoke_def Let_def)

theorem C5_scan_failure_keeps_catalog_witness:
  "scannedDevices (scanBtn_onclick (Inl ''no bus'') selected) = [dev1]
   \<and> log (scanBtn_onclick (Inl ''no bus'') selected) =
       log selected @ [(Info, ''Scanning HID bus...''), (Error, ''Scan Error: no bus'')]
   \<and> scannedDevices (scanBtn_onclick (Inr []) (scanBtn_onclick (Inl ''no bus'') selected)) = []"
proof -
  note t = C5_scan_failure_keeps_catalog [of "''no bus''" selected "[]"]
  from t have "scanBtn_onclick (Inl ''no bus'') selected =
     selected\<lparr> log := log selected @ [(Info, ''Scanning HID bus...''), (Error, ''Scan Error: '' @ ''no bus'')],
        history := history selected @ [Logged Info ''Scanning HID bus...'', Invoked Scan_hid_devices,
                                Logged Error (''Scan Error: '' @ ''no bus'')] \<rparr>"
    by (rule conjunct1)
  then have l: "log (scanBtn_onclick (Inl ''no bus'') selected) =
       log selected @ [(Info, ''Scanning HID bus...''), (Error, ''Scan Error: no bus'')]"
    by simp
  from t have "scannedDevices (scanBtn_onclick (Inl ''no bus'') selected) = scannedDevices selected"
    and "scannedDevices (scanBtn_onclick (Inr []) (scanBtn_onclick (Inl ''no bus'') selected)) = []"
    by blast+
  with l show ?thesis by (simp add: selected_facts)
qed

text \<open>
  The claim C6 as it is written fails on the program: the click handler assigns
  \<open>selectedDevicePath\<close> before it looks the path up, and the \<^verbatim>\<open>data-path\<close> it reads
  need not be a path of the catalog.  The catalog holds one device, of path
  \<^verbatim>\<open>a&amp;b\<close>, and nothing is selected.  The page writes that path into the markup
  without escaping, and the \<^verbatim>\<open>data-path\<close> of the rendered item, read back with the
  character reference decoded, is \<^verbatim>\<open>a&b\<close>.  The click on the item selects
  \<^verbatim>\<open>a&b\<close>, a path that no descriptor of the catalog has.
\<close>

theorem C6_click_absent_path_counterexample:
  "reachable (device_item_click ''a&b'' scanned_amp)
   \<and> scannedDevices scanned_amp = [dev_amp]
   \<and> path dev_amp = ''a&amp;b''
   \<and> ''a&b'' \<notin> path ` set (scannedDevices scanned_amp)
   \<and> selectedDevicePath scanned_amp = None
   \<and> selectedDevicePath (device_item_click ''a&b'' scanned_amp) = Some ''a&b''"
  by (simp add: reachable_click_amp click_selected scanned_amp_facts dev_amp_def)

text \<open>
  Claim C6, amended.  The select operation sets the selection to its path argument
  whether or not the catalog has that path (and to none when the path is empty); it
  leaves the catalog and the listener registry unchanged, and for a path that the catalog
  does not have it writes no log entry and leaves the tag.
\<close>

theorem C6_click_sets_selection:
  "selectedDevicePath (device_item_click p s) = (if p = [] then None else Some p)
   \<and> scannedDevices (device_item_click p s) = scannedDevices s
   \<and> activeListeners (device_item_click p s) = activeListeners s
   \<and> (p \<notin> path ` set (scannedDevices s) \<longrightarrow>
        log (device_item_click p s) = log s
        \<and> selectedTag (device_item_click p s) = selectedTag s)"
  using click_absent [of p s]
  by (auto simp only: click_selected click_catalog click_listeners)

theorem C6_click_sets_selection_witness:
  "selectedDevicePath (device_item_click ''dev-1'' scanned) = Some ''dev-1''
   \<and> selectedDevicePath (device_item_click ''a&b'' scanned_amp) = Some ''a&b''
   \<and> log (device_item_click ''a&b'' scanned_amp) = log scanned_amp"
proof -
  have "''a&b'' \<notin> path ` set (scannedDevices scanned_amp)"
    by (simp add: scanned_amp_facts dev_amp_def)
  then show ?thesis
    using C6_click_sets_selection [of "''dev-1''" scanned]
      C6_click_sets_selection [of "''a&b''" scanned_amp]
    by simp
qed

section \<open>Failures during a send\<close>




text \<open>
  Claim C10.  In a send with a device selected and a command text that is not blank, the
  first thing that happens is the log entry \<^verbatim>\<open>[OUT]\<close> with the trimmed text, of
  category outgoing: every backend command of the send comes after it, and there is one.
  Whatever the backend answers, the entry stays in the log, right after the entries that
  were there before the send.
\<close>

theorem C10_outgoing_entry_first_and_kept:
  assumes sel: "selectedDevicePath s = Some P" and ne: "P \<noteq> []"
    and tx1: "trim text \<noteq> []"
  shows "\<exists>evs es.
       history (sendBtn_onclick b text s) =
         history s @ Logged Outgoing (''[OUT] '' @ trim text) # evs
     \<and> log (sendBtn_onclick b text s) = log s @ (Outgoing, ''[OUT] '' @ trim text) # es
     \<and> calls evs = calls (new_events s (sendBtn_onclick b text s))
     \<and> calls evs \<noteq> []"
  using assms by (auto simp: send_defs new_events_def split: sum.splits)

theorem C10_outgoing_entry_first_and_kept_witness:
  "\<exists>evs es.
       history (sendBtn_onclick send_rejecting ''01 02'' selected) =
         history selected @ Logged Outgoing ''[OUT] 01 02'' # evs
     \<and> log (sendBtn_onclick send_rejecting ''01 02'' selected) =
         log selected @ (Outgoing, ''[OUT] 01 02'') # es
     \<and> calls evs = calls (new_events selected (sendBtn_onclick send_rejecting ''01 02'' selected))
     \<and> calls evs \<noteq> []"
proof -
  have p: "selectedDevicePath selected = Some ''dev-1''" "''dev-1'' \<noteq> []"
    "trim ''01 02'' \<noteq> []"
    by (simp_all add: selected_facts trim_01_02)
  show ?thesis
    using C10_outgoing_entry_first_and_kept [OF p, of send_rejecting]
    by (simp add: trim_01_02)
qed

section \<open>Encoding the command text\<close>

lemma dropWhile_pad:
  "list_all P xs \<Longrightarrow> ys \<noteq> [] \<Longrightarrow> \<not> P (hd ys) \<Longrightarrow> dropWhile P (xs @ ys) = ys"
  by (induction xs) (auto simp: neq_Nil_conv)

lemma takeWhile_pad:
  "list_all P xs \<Longrightarrow> ys \<noteq> [] \<Longrightarrow> \<not> P (hd ys) \<Longrightarrow> takeWhile P (xs @ ys) = xs"
  by (induction xs) (auto simp: neq_Nil_conv)

lemma split_ws_token:
  assumes "list_all (\<lambda>c. \<not> is_space c) t"
  shows "split_ws t = [t]"
proof -
  from assms have "dropWhile (\<lambda>c. \<not> is_space c) t = []" "takeWhile (\<lambda>c. \<not> is_space c) t = t"
    by (simp_all add: list_all_iff)
  then show ?thesis by (simp add: split_ws.simps [of t])
qed

lemma split_ws_step:
  assumes t: "list_all (\<lambda>c. \<not> is_space c) t" and sep: "is_separator sep"
    and r: "rest \<noteq> []" "\<not> is_space (hd rest)"
  shows "split_ws (t @ sep @ rest) = t # split_ws rest"
proof -
  from sep have s: "sep \<noteq> []" "is_space (hd sep)" "list_all is_space sep"
    by (cases sep; simp add: is_separator_def)+
  then have ne: "sep @ rest \<noteq> []" and h: "\<not> \<not> is_space (hd (sep @ rest))"
    by simp_all
  have tk: "takeWhile (\<lambda>c. \<not> is_space c) (t @ sep @ rest) = t"
    by (rule takeWhile_pad [OF t ne h])
  have dr: "dropWhile (\<lambda>c. \<not> is_space c) (t @ sep @ rest) = sep @ rest"
    by (rule dropWhile_pad [OF t ne h])
  have ds: "dropWhile is_space (sep @ rest) = rest"
    by (rule dropWhile_pad [OF s(3) r])
  show ?thesis
    by (subst split_ws.simps) (simp only: tk dr ds ne Let_def if_False)
qed

lemma weave_ends:
  assumes "ts \<noteq> []" "list_all is_token ts"
  shows "weave ts seps \<noteq> [] \<and> \<not> is_space (hd (weave ts seps)) \<and> \<not> is_space (last (weave ts seps))"
  using assms
proof (induction ts seps rule: weave.induct)
  case (1 seps)
  then show ?case by simp
next
  case (2 t seps)
  then show ?case by (auto simp: is_token_def list_all_iff)
next
  case (3 t u ts)
  then show ?case by (auto simp: is_token_def list_all_iff)
next
  case (4 t u ts sep seps)
  then have ih: "weave (u # ts) seps \<noteq> []" "\<not> is_space (last (weave (u # ts) seps))"
    by simp_all
  from 4(3) have "t \<noteq> []" "\<not> is_space (hd t)"
    by (auto simp: is_token_def list_all_iff)
  with ih show ?case by simp
qed

lemma split_ws_weave:
  assumes "length ts = length seps + 1" "list_all is_token ts" "list_all is_separator seps"
  shows "split_ws (weave ts seps) = ts"
  using assms
proof (induction ts seps rule: weave.induct)
  case (1 seps)
  then show ?case by simp
next
  case (2 t seps)
  then show ?case by (simp add: split_ws_token is_token_def)
next
  case (3 t u ts)
  then show ?case by simp
next
  case (4 t u ts sep seps)
  then have ih: "split_ws (weave (u # ts) seps) = u # ts" by simp
  from 4(3) have t: "list_all (\<lambda>c. \<not> is_space c) t" by (simp add: is_token_def)
  from 4(4) have sep: "is_separator sep" by simp
  from 4(3) have "list_all is_token (u # ts)" by simp
  with weave_ends [of "u # ts" seps]
  have "weave (u # ts) seps \<noteq> []" "\<not> is_space (hd (weave (u # ts) seps))" by simp_all
  from split_ws_step [OF t sep this] ih show ?case by simp
qed

lemma trim_padded:
  assumes "list_all is_space lead" "list_all is_space trail"
    and "w \<noteq> []" "\<not> is_space (hd w)" "\<not> is_space (last w)"
  shows "trim (lead @ w @ trail) = w"
proof -
  have "w @ trail \<noteq> []" "\<not> is_space (hd (w @ trail))"
    using assms by simp_all
  with assms(1) have a: "dropWhile is_space (lead @ w @ trail) = w @ trail"
    by (rule dropWhile_pad)
  have "list_all is_space (rev trail)" "rev w \<noteq> []" "\<not> is_space (hd (rev w))"
    using assms by (simp_all add: hd_rev list_all_iff)
  then have "dropWhile is_space (rev trail @ rev w) = rev w"
    by (rule dropWhile_pad)
  with a show ?thesis by (simp add: trim_def)
qed

lemma hex_digit_plain:
  assumes "is_hex_digit c"
  shows "\<not> is_space c" "c \<noteq> CHR ''-''" "c \<noteq> CHR ''+''" "c \<noteq> CHR ''x''" "c \<noteq> CHR ''X''"
  using assms by (auto simp: is_hex_digit_def hex_digit_val_def is_space_def Let_def split: if_splits)

lemma to_double_exact: "m < 2 ^ 53 \<Longrightarrow> to_double m = Some m"
  by (simp add: to_double_def)

lemma parseInt16_hex:
  assumes "t \<noteq> []" "is_exact_hex t"
  shows "parseInt16 t = Num (int (hex_value t))"
proof -
  from assms(2) have hex: "list_all is_hex_digit t" and small: "int (hex_value t) < 2 ^ 53"
    by (simp_all add: is_exact_hex_def)
  from assms(1) hex obtain c cs where t: "t = c # cs" "is_hex_digit c" "list_all is_hex_digit cs"
    by (cases t) auto
  have tw: "takeWhile is_hex_digit t = t"
    using hex by (simp add: list_all_iff)
  have s0: "strip_0x t = t"
    using t hex_digit_plain by (cases cs) (auto simp: strip_0x_def)
  have ds: "dropWhile is_space t = t"
    using t hex_digit_plain(1) by simp
  have ss: "strip_sign t = (1, t)"
    using t hex_digit_plain [OF t(2)] by (simp add: strip_sign_def)
  show ?thesis
    unfolding parseInt16_def ds ss
    by (simp add: s0 tw assms(1) to_double_exact [OF small] Let_def)
qed


lemma cmdArray_default: "cmdArray (trim ''00 C0 0A 00 00'') = [Num 0, Num 192, Num 10, Num 0, Num 0]"
  by code_simp

text \<open>
  Claim C7.  The array that the send handler builds from the command text is obtained by
  splitting the trimmed text at its runs of white space and applying
  \<^verbatim>\<open>parseInt(token, 16)\<close> to each piece: for tokens \<open>ts\<close> (non-empty, free of white
  space) written with non-empty runs of white space between them, and possibly white
  space around the whole, the array is \<open>map parseInt16 ts\<close>; where every token consists
  of hexadecimal digits and has a value below \<open>2^53\<close> (which a Number holds exactly),
  each element is the base-16 value of its token.  The text
  \<^verbatim>\<open>00 C0 0A 00 00\<close> gives \<open>[0x00, 0xC0, 0x0A, 0x00, 0x00]\<close>.
\<close>

theorem C7_encode_splits_and_parses:
  assumes len: "length ts = length seps + 1"
    and toks: "list_all is_token ts" and seps: "list_all is_separator seps"
    and pad: "list_all is_space lead" "list_all is_space trail"
  shows "cmdArray (trim (lead @ weave ts seps @ trail)) = map parseInt16 ts
     \<and> (list_all is_exact_hex ts \<longrightarrow>
          cmdArray (trim (lead @ weave ts seps @ trail)) = map (\<lambda>t. Num (int (hex_value t))) ts)
     \<and> cmdArray (trim ''00 C0 0A 00 00'') = [Num 0, Num 192, Num 10, Num 0, Num 0]"
proof -
  from len have ne: "ts \<noteq> []" by auto
  from weave_ends [OF ne toks, of seps] pad
  have "trim (lead @ weave ts seps @ trail) = weave ts seps"
    by (simp add: trim_padded)
  then have a: "cmdArray (trim (lead @ weave ts seps @ trail)) = map parseInt16 ts"
    by (simp add: cmdArray_def split_ws_weave [OF len toks seps])
  have "map parseInt16 ts = map (\<lambda>t. Num (int (hex_value t))) ts"
    if "list_all is_exact_hex ts"
  proof (rule map_cong [OF refl])
    fix t assume "t \<in> set ts"
    with that toks have "t \<noteq> []" "is_exact_hex t"
      by (auto simp: list_all_iff is_token_def)
    then show "parseInt16 t = Num (int (hex_value t))" by (rule parseInt16_hex)
  qed
  with a cmdArray_default show ?thesis by simp
qed

theorem C7_encode_splits_and_parses_witness:
  "cmdArray (trim ''  1f  A0 '') = [Num 31, Num 160]"
proof -
  have h: "length [''1f'', ''A0''] = length [''  ''] + 1"
    "list_all is_token [''1f'', ''A0'']" "list_all is_separator [''  '']"
    "list_all is_space ''  ''" "list_all is_space '' ''"
    by (simp_all add: is_token_def is_separator_def is_space_def)
  have v: "hex_value ''1f'' = 31" "hex_value ''A0'' = 160"
    by (simp_all add: hex_value_def hex_digit_val_def)
  then have x: "list_all is_exact_hex [''1f'', ''A0'']"
    by (simp add: is_exact_hex_def is_hex_digit_def hex_digit_val_def)
  from C7_encode_splits_and_parses [OF h(1-5)] x
  have "cmdArray (trim (''  '' @ weave [''1f'', ''A0''] [''  ''] @ '' '')) =
      map (\<lambda>t. Num (int (hex_value t))) [''1f'', ''A0'']"
    by blast
  then show ?thesis by (simp add: v)
qed

section \<open>Frames pushed by the backend\<close>

lemma upper_digit:
  assumes "d < 16"
  shows "toUpperCase [digit_char d] = [upper_hex_digit d]"
proof -
  from assms have "d = 0 \<or> d = 1 \<or> d = 2 \<or> d = 3 \<or> d = 4 \<or> d = 5 \<or> d = 6 \<or> d = 7
      \<or> d = 8 \<or> d = 9 \<or> d = 10 \<or> d = 11 \<or> d = 12 \<or> d = 13 \<or> d = 14 \<or> d = 15"
    by arith
  then show ?thesis
    by (elim disjE)
      (simp_all add: toUpperCase_def digit_char_def upper_hex_digit_def char_of_def bit_0)
qed

lemma nat_digits_one: "n < 16 \<Longrightarrow> nat_digits 16 n = [digit_char n]"
  by (simp add: nat_digits.simps [of 16 n])

lemma nat_digits_two:
  assumes "16 \<le> n" "n < 256"
  shows "nat_digits 16 n = [digit_char (n div 16), digit_char (n mod 16)]"
proof -
  from assms have "n div 16 < 16" by simp
  then have "nat_digits 16 (n div 16) = [digit_char (n div 16)]" by (rule nat_digits_one)
  with assms show ?thesis by (simp add: nat_digits.simps [of 16 n])
qed

lemma hex_pair_byte:
  assumes "is_byte b"
  shows "hex_pair b = [upper_hex_digit (nat b div 16), upper_hex_digit (nat b mod 16)]"
proof (cases "nat b < 16")
  case True
  then have "toUpperCase (nat_digits 16 (nat b)) = [upper_hex_digit (nat b)]"
    by (simp only: nat_digits_one upper_digit)
  moreover have "upper_hex_digit 0 = CHR ''0''" by (simp add: upper_hex_digit_def)
  ultimately show ?thesis
    using assms True by (simp add: hex_pair_def toString_def padStart_def is_byte_def)
next
  case False
  with assms have r: "16 \<le> nat b" "nat b < 256"
    unfolding is_byte_def by linarith+
  then have d: "nat b div 16 < 16" "nat b mod 16 < 16" by simp_all
  have "toUpperCase (nat_digits 16 (nat b)) =
      toUpperCase [digit_char (nat b div 16)] @ toUpperCase [digit_char (nat b mod 16)]"
    by (simp add: nat_digits_two [OF r] toUpperCase_def)
  also have "\<dots> = [upper_hex_digit (nat b div 16), upper_hex_digit (nat b mod 16)]"
    by (simp only: upper_digit [OF d(1)] upper_digit [OF d(2)] append_Cons append_Nil)
  finally show ?thesis
    using assms by (simp add: hex_pair_def toString_def padStart_def is_byte_def)
qed

lemma hex_line_bytes:
  assumes "list_all is_byte payload"
  shows "hex_line payload =
     join '' '' (map (\<lambda>b. [upper_hex_digit (nat b div 16), upper_hex_digit (nat b mod 16)]) payload)"
proof -
  have "map hex_pair payload =
      map (\<lambda>b. [upper_hex_digit (nat b div 16), upper_hex_digit (nat b mod 16)]) payload"
    using assms by (intro map_cong [OF refl] hex_pair_byte) (simp add: list_all_iff)
  then show ?thesis by (simp only: hex_line_def)
qed

text \<open>
  Claim C9.  In a reachable state one handler is subscribed to the push channel, so a
  pushed frame appends exactly one entry to the log, of category incoming.  Its message
  is \<^verbatim>\<open>[ASYNC IN]\<close>, a blank, and the rendering of the payload; for a payload of bytes
  (0 to 255) the rendering is, byte by byte, the two upper-case hexadecimal digits of the
  byte, with one blank between bytes.  The payload \<open>[0, 192, 10]\<close> renders as
  \<^verbatim>\<open>00 C0 0A\<close>.
\<close>

theorem C9_pushed_frame_logged_once:
  assumes "reachable s"
  shows "log (hid_data_event payload s) =
           log s @ [(Incoming, ''[ASYNC IN] '' @ hex_line payload)]
     \<and> (list_all is_byte payload \<longrightarrow>
          hex_line payload =
            join '' '' (map (\<lambda>b. [upper_hex_digit (nat b div 16), upper_hex_digit (nat b mod 16)])
              payload))
     \<and> hex_line [0, 192, 10] = ''00 C0 0A''"
proof -
  from assms have "hid_subscriptions s = 1" by (simp add: reachable_subscribed)
  then have "log (hid_data_event payload s) =
           log s @ [(Incoming, ''[ASYNC IN] '' @ hex_line payload)]"
    by (simp add: hid_data_event_def hid_data_handler_def addLog_def)
  moreover have "hex_line [0, 192, 10] = ''00 C0 0A''"
    by code_simp
  ultimately show ?thesis using hex_line_bytes [of payload] by simp
qed

theorem C9_pushed_frame_logged_once_witness:
  "log (hid_data_event [0, 192, 10] selected) = log selected @ [(Incoming, ''[ASYNC IN] 00 C0 0A'')]
   \<and> hex_line [7, 255] =
       [upper_hex_digit 0, upper_hex_digit 7] @ '' '' @ [upper_hex_digit 15, upper_hex_digit 15]"
proof -
  have b: "list_all is_byte [7, 255]" by (simp add: is_byte_def)
  from C9_pushed_frame_logged_once [OF reachable_selected, of "[0, 192, 10]"]
  have "log (hid_data_event [0, 192, 10] selected) =
      log selected @ [(Incoming, ''[ASYNC IN] '' @ hex_line [0, 192, 10])]"
    and "hex_line [0, 192, 10] = ''00 C0 0A''"
    by blast+
  moreover from C9_pushed_frame_logged_once [OF reachable_selected, of "[7, 255]"] b
  have "hex_line [7, 255] =
      join '' '' (map (\<lambda>b. [upper_hex_digit (nat b div 16), upper_hex_digit (nat b mod 16)]) [7, 255])"
    by blast
  ultimately show ?thesis by simp
qed

end
